theory Spec2Isabelle
  imports Main "HOL-Library.Sublist"
begin

section \<open>Data model\<close>

text \<open>
  The column description of the data table (interface \<open>ColumnDefinition\<close>). Optional
  properties (\<open>type?\<close>, \<open>mustShow?\<close>, \<open>minWidth?\<close>, ...) are options: \<open>None\<close> is the
  property left \<open>undefined\<close>. Only the properties read or written by column derivation and
  by the responsive column selection are kept; the remaining ones (formatting, rendering
  callbacks, actions) are never read there.
  Strings are ASCII character lists; numbers that the selection computes with are pixel
  counts, modelled as unbounded integers.
\<close>

datatype column_type = TString | TDate | TNumber | TBoolean | TCustom | TActions

datatype filter_type = FText | FNumeric | FDate | FBoolean | FCustom

record ColumnDefinition =
  field :: string
  header :: string
  ctype :: "column_type option"
  filterable :: "bool option"
  filterType :: "filter_type option"
  mustShow :: "bool option"
  minWidth :: "string option"

text \<open>The condition \<open>if (col.mustShow)\<close>: \<open>undefined\<close> and \<open>false\<close> are falsy.\<close>

definition isMustShow :: "ColumnDefinition \<Rightarrow> bool" where
  "isMustShow col = (mustShow col = Some True)"

section \<open>Parsing a minimum width\<close>

text \<open>
  \<open>parseInt(s, 10)\<close>: leading white space is skipped, one sign is read, then the longest
  run of decimal digits; with no digit the result is \<open>NaN\<close>, here \<open>None\<close>.
\<close>

definition isWhiteSpace :: "char \<Rightarrow> bool" where
  "isWhiteSpace c = ((of_char c :: nat) \<in> {9, 10, 11, 12, 13, 32})"

definition isDigit :: "char \<Rightarrow> bool" where
  "isDigit c = (48 \<le> (of_char c :: nat) \<and> (of_char c :: nat) \<le> 57)"

definition digitValue :: "char \<Rightarrow> int" where
  "digitValue c = int (of_char c) - 48"

fun digitsValue :: "int \<Rightarrow> string \<Rightarrow> int" where
  "digitsValue acc [] = acc"
| "digitsValue acc (c # cs) = digitsValue (10 * acc + digitValue c) cs"

definition parseInt10 :: "string \<Rightarrow> int option" where
  "parseInt10 s =
     (let t = dropWhile isWhiteSpace s;
          neg = (t \<noteq> [] \<and> hd t = CHR ''-'');
          u = (if t \<noteq> [] \<and> (hd t = CHR ''-'' \<or> hd t = CHR ''+'') then tl t else t);
          ds = takeWhile isDigit u
      in if ds = [] then None
         else Some (if neg then - digitsValue 0 ds else digitsValue 0 ds))"

text \<open>\<open>parseMinWidth\<close>: \<open>isNaN(parsed) ? 100 : parsed\<close>.\<close>

definition parseMinWidth :: "string \<Rightarrow> int" where
  "parseMinWidth s = (case parseInt10 s of None \<Rightarrow> 100 | Some parsed \<Rightarrow> parsed)"

text \<open>The argument \<open>col.minWidth || "100px"\<close>: a missing or empty string is falsy.\<close>

definition minWidthOrDefault :: "ColumnDefinition \<Rightarrow> string" where
  "minWidthOrDefault col =
     (case minWidth col of None \<Rightarrow> ''100px''
      | Some s \<Rightarrow> if s = [] then ''100px'' else s)"

definition colMinWidth :: "ColumnDefinition \<Rightarrow> int" where
  "colMinWidth col = parseMinWidth (minWidthOrDefault col)"

section \<open>Responsive column selection\<close>

text \<open>
  \<open>updateResponsiveColumns\<close> (the specification's \<open>selectVisible\<close>) reads the master
  column list and the table width and stores the columns to display. The two
  \<open>forEach\<close> loops thread the pair \<open>(currentVisibleColumns, accumulatedWidth)\<close>; each loop
  body is a step function and the loop is a left fold over the master list.
\<close>

type_synonym selection = "ColumnDefinition list \<times> int"

definition pass1_step :: "selection \<Rightarrow> ColumnDefinition \<Rightarrow> selection" where
  "pass1_step st col =
     (case st of (currentVisibleColumns, accumulatedWidth) \<Rightarrow>
        if isMustShow col
        then (currentVisibleColumns @ [col], accumulatedWidth + colMinWidth col)
        else (currentVisibleColumns, accumulatedWidth))"

definition pass2_step :: "int \<Rightarrow> selection \<Rightarrow> ColumnDefinition \<Rightarrow> selection" where
  "pass2_step tableWidth st col =
     (case st of (currentVisibleColumns, accumulatedWidth) \<Rightarrow>
        if \<not> isMustShow col then
          if find (\<lambda>c. field c = field col) currentVisibleColumns = None then
            if tableWidth > accumulatedWidth + colMinWidth col
            then (currentVisibleColumns @ [col], accumulatedWidth + colMinWidth col)
            else (currentVisibleColumns, accumulatedWidth)
          else (currentVisibleColumns, accumulatedWidth)
        else (currentVisibleColumns, accumulatedWidth))"

definition pass1 :: "ColumnDefinition list \<Rightarrow> selection" where
  "pass1 allMasterColumns = foldl pass1_step ([], 0) allMasterColumns"

definition pass2 :: "int \<Rightarrow> ColumnDefinition list \<Rightarrow> selection \<Rightarrow> selection" where
  "pass2 tableWidth allMasterColumns st = foldl (pass2_step tableWidth) st allMasterColumns"

text \<open>\<open>Array.prototype.findIndex\<close>: the first index whose element passes, or \<open>-1\<close>.\<close>

fun findIndexFrom :: "('a \<Rightarrow> bool) \<Rightarrow> int \<Rightarrow> 'a list \<Rightarrow> int" where
  "findIndexFrom P i [] = - 1"
| "findIndexFrom P i (x # xs) = (if P x then i else findIndexFrom P (i + 1) xs)"

definition findIndex :: "('a \<Rightarrow> bool) \<Rightarrow> 'a list \<Rightarrow> int" where
  "findIndex P xs = findIndexFrom P 0 xs"

text \<open>
  The sort key of a selected column: the index of the first master column with the same
  \<open>field\<close>. The comparator \<open>indexA - indexB\<close> orders by this key, and
  \<open>Array.prototype.sort\<close> is stable, so the sort is the stable sort by key.
\<close>

definition masterIndex :: "ColumnDefinition list \<Rightarrow> ColumnDefinition \<Rightarrow> int" where
  "masterIndex allMasterColumns a = findIndex (\<lambda>masterCol. field masterCol = field a) allMasterColumns"

definition updateResponsiveColumns :: "ColumnDefinition list \<Rightarrow> int \<Rightarrow> ColumnDefinition list" where
  "updateResponsiveColumns allMasterColumns tableWidth =
     (if allMasterColumns = [] then []
      else sort_key (masterIndex allMasterColumns)
             (fst (pass2 tableWidth allMasterColumns (pass1 allMasterColumns))))"


text \<open>A column literal \<open>{ field, header, mustShow, minWidth }\<close>, as in the usage guide.\<close>

definition columnLiteral :: "string \<Rightarrow> bool option \<Rightarrow> string option \<Rightarrow> ColumnDefinition" where
  "columnLiteral f m w =
     \<lparr>field = f, header = f, ctype = None, filterable = None, filterType = None,
      mustShow = m, minWidth = w\<rparr>"

section \<open>Deriving columns from data\<close>

text \<open>
  A property value of the first data item, as far as \<open>guessType\<close> tells values apart:
  \<open>typeof\<close> boolean, \<open>instanceof Date\<close>, \<open>typeof\<close> string, \<open>typeof\<close> number (the
  number itself is never inspected), and everything else (\<open>null\<close>, \<open>undefined\<close>, other
  objects, functions).
\<close>

datatype 'n js_value = JSBoolean bool | JSDate | JSString string | JSNumber 'n | JSOther

text \<open>
  An own enumerable property of a data item, as a read \<open>item[key]\<close> sees it: a property
  that holds a value, or an accessor whose getter throws. (An accessor whose getter
  returns a value reads like a property that holds that value.)
\<close>

datatype 'n js_property = DataProperty "'n js_value" | ThrowingAccessor

text \<open>
  A data item as \<open>Object.keys\<close> sees it: \<open>undefined\<close>, \<open>null\<close>, or a value with its own
  enumerable string-keyed properties in \<open>Object.keys\<close> order. \<open>Object.keys\<close> throws a
  \<open>TypeError\<close> on the first two.
\<close>

datatype 'n data_item = ItemUndefined | ItemNull | ItemObject "(string \<times> 'n js_property) list"

text \<open>What is thrown: a \<open>TypeError\<close> of the language, or whatever a getter throws.\<close>

datatype js_error = TypeError | AccessorError

definition objectKeys :: "'n data_item \<Rightarrow> js_error + string list" where
  "objectKeys item =
     (case item of
        ItemUndefined \<Rightarrow> Inl TypeError
      | ItemNull \<Rightarrow> Inl TypeError
      | ItemObject props \<Rightarrow> Inr (map fst props))"

text \<open>
  The read \<open>firstItem[key]\<close>: a property that is not there reads as \<open>undefined\<close>, a
  throwing getter throws, and a read on \<open>undefined\<close> or \<open>null\<close> is a \<open>TypeError\<close>.
\<close>

definition readProperty :: "'n data_item \<Rightarrow> string \<Rightarrow> js_error + 'n js_value" where
  "readProperty item key =
     (case item of
        ItemObject props \<Rightarrow>
          (case map_of props key of
             Some (DataProperty v) \<Rightarrow> Inr v
           | Some ThrowingAccessor \<Rightarrow> Inl AccessorError
           | None \<Rightarrow> Inr JSOther)
      | _ \<Rightarrow> Inl TypeError)"

text \<open>The value of the read \<open>firstItem[key]\<close> when the read returns.\<close>

definition getProperty :: "'n data_item \<Rightarrow> string \<Rightarrow> 'n js_value" where
  "getProperty item key = (case readProperty item key of Inr v \<Rightarrow> v | Inl _ \<Rightarrow> JSOther)"

subsection \<open>Headers\<close>

definition isUpperAZ :: "char \<Rightarrow> bool" where
  "isUpperAZ c = (65 \<le> (of_char c :: nat) \<and> (of_char c :: nat) \<le> 90)"

text \<open>\<open>toUpperCase\<close> on one ASCII character.\<close>

definition toUpperCase :: "char \<Rightarrow> char" where
  "toUpperCase c =
     (if 97 \<le> (of_char c :: nat) \<and> (of_char c :: nat) \<le> 122
      then char_of ((of_char c :: nat) - 32) else c)"

text \<open>\<open>header.replace(/([A-Z])/g, " $1")\<close>: every match is replaced by a space and itself.\<close>

definition replaceUpper :: "string \<Rightarrow> string" where
  "replaceUpper s = concat (map (\<lambda>c. if isUpperAZ c then [CHR '' '', c] else [c]) s)"

definition capitalizeHeader :: "string \<Rightarrow> string" where
  "capitalizeHeader h =
     (if h = [] then []
      else let result = replaceUpper h
           in map toUpperCase (take 1 result) @ drop 1 result)"

text \<open>
  The header as the specification words it: a space before every internal uppercase
  letter (every one but a leading one), then the first character capitalised.
\<close>

definition spec_header :: "string \<Rightarrow> string" where
  "spec_header key =
     (case key of [] \<Rightarrow> [] | c # cs \<Rightarrow> toUpperCase c # replaceUpper cs)"

subsection \<open>Type guessing\<close>

text \<open>
  The regular expression \<open>/^\d{4}-\d{2}-\d{2}T\d{2}:\d{2}:\d{2}/\<close> is a sequence of
  single-character items, each a digit class or a literal, anchored at the start.
\<close>

datatype pattern_item = Digit | Lit char

fun matchesPrefix :: "pattern_item list \<Rightarrow> string \<Rightarrow> bool" where
  "matchesPrefix [] s = True"
| "matchesPrefix (p # ps) [] = False"
| "matchesPrefix (Digit # ps) (c # cs) = (isDigit c \<and> matchesPrefix ps cs)"
| "matchesPrefix (Lit l # ps) (c # cs) = (c = l \<and> matchesPrefix ps cs)"

definition isoDatePattern :: "pattern_item list" where
  "isoDatePattern =
     replicate 4 Digit @ [Lit (CHR ''-'')] @ replicate 2 Digit @ [Lit (CHR ''-'')] @
     replicate 2 Digit @ [Lit (CHR ''T'')] @ replicate 2 Digit @ [Lit (CHR '':'')] @
     replicate 2 Digit @ [Lit (CHR '':'')] @ replicate 2 Digit"

definition typeofBoolean :: "'n js_value \<Rightarrow> bool" where
  "typeofBoolean v = (case v of JSBoolean _ \<Rightarrow> True | _ \<Rightarrow> False)"

definition instanceofDate :: "'n js_value \<Rightarrow> bool" where
  "instanceofDate v = (case v of JSDate \<Rightarrow> True | _ \<Rightarrow> False)"

definition typeofNumber :: "'n js_value \<Rightarrow> bool" where
  "typeofNumber v = (case v of JSNumber _ \<Rightarrow> True | _ \<Rightarrow> False)"

definition isoDateString :: "'n js_value \<Rightarrow> bool" where
  "isoDateString v = (case v of JSString s \<Rightarrow> matchesPrefix isoDatePattern s | _ \<Rightarrow> False)"

definition guessType :: "'n js_value \<Rightarrow> column_type" where
  "guessType v =
     (if typeofBoolean v then TBoolean
      else if instanceofDate v \<or> isoDateString v then TDate
      else if typeofNumber v then TNumber
      else TString)"

fun guessFilterType :: "column_type \<Rightarrow> filter_type" where
  "guessFilterType TDate = FDate"
| "guessFilterType TNumber = FNumeric"
| "guessFilterType TBoolean = FBoolean"
| "guessFilterType _ = FText"

text \<open>
  The date pattern as the specification words it: four digits, dash, two digits, dash,
  two digits, \<open>T\<close>, two digits, colon, two digits, colon, two digits, at the start.
\<close>

definition spec_datePrefix :: "string \<Rightarrow> bool" where
  "spec_datePrefix s =
     (19 \<le> length s \<and>
      list_all isDigit (take 4 s) \<and> s ! 4 = CHR ''-'' \<and>
      list_all isDigit (take 2 (drop 5 s)) \<and> s ! 7 = CHR ''-'' \<and>
      list_all isDigit (take 2 (drop 8 s)) \<and> s ! 10 = CHR ''T'' \<and>
      list_all isDigit (take 2 (drop 11 s)) \<and> s ! 13 = CHR '':'' \<and>
      list_all isDigit (take 2 (drop 14 s)) \<and> s ! 16 = CHR '':'' \<and>
      list_all isDigit (take 2 (drop 17 s)))"

subsection \<open>Derivation\<close>

text \<open>
  \<open>deriveColumnsFromData\<close> reads \<open>this.data\<close> (\<open>None\<close> when it is not set) and
  \<open>mergedConfig.enableColumnFiltering\<close> and stores \<open>derivedColumns\<close>, returned here; an
  exception thrown on the way is the \<open>Inl\<close> result.
\<close>

definition deriveColumn :: "bool option \<Rightarrow> 'n data_item \<Rightarrow> string \<Rightarrow> ColumnDefinition" where
  "deriveColumn enableColumnFiltering firstItem key =
     \<lparr>field = key,
      header = capitalizeHeader key,
      ctype = Some (guessType (getProperty firstItem key)),
      filterable = enableColumnFiltering,
      filterType = Some (guessFilterType (guessType (getProperty firstItem key))),
      mustShow = None,
      minWidth = Some ''100px''\<rparr>"

text \<open>
  \<open>keys.map(callback)\<close>: the callback builds one column per key, in order; it reads
  \<open>firstItem[key]\<close> (twice, for \<open>type\<close> and for \<open>filterType\<close>), and a read that throws
  ends the whole call.
\<close>

fun deriveColumns :: "bool option \<Rightarrow> 'n data_item \<Rightarrow> string list \<Rightarrow> js_error + ColumnDefinition list" where
  "deriveColumns enableColumnFiltering firstItem [] = Inr []"
| "deriveColumns enableColumnFiltering firstItem (key # keys) =
     (case readProperty firstItem key of
        Inl e \<Rightarrow> Inl e
      | Inr _ \<Rightarrow>
          (case deriveColumns enableColumnFiltering firstItem keys of
             Inl e \<Rightarrow> Inl e
           | Inr cols \<Rightarrow> Inr (deriveColumn enableColumnFiltering firstItem key # cols)))"

definition deriveColumnsFromData ::
  "bool option \<Rightarrow> 'n data_item list option \<Rightarrow> js_error + ColumnDefinition list" where
  "deriveColumnsFromData enableColumnFiltering data =
     (case data of
        None \<Rightarrow> Inr []
      | Some [] \<Rightarrow> Inr []
      | Some (firstItem # _) \<Rightarrow>
          (case objectKeys firstItem of
             Inl e \<Rightarrow> Inl e
           | Inr keys \<Rightarrow> deriveColumns enableColumnFiltering firstItem keys))"

text \<open>
  An invariant of the selection: a column that is not mandatory is the only selected
  column with its \<open>field\<close>.
\<close>

definition singleField :: "ColumnDefinition list \<Rightarrow> bool" where
  "singleField vis =
     (\<forall>c\<in>set vis. \<not> isMustShow c \<longrightarrow> length (filter (\<lambda>d. field d = field c) vis) = 1)"

section \<open>The two passes\<close>

lemma colMinWidth_missing: "minWidth col = None \<Longrightarrow> colMinWidth col = 100"
  by (simp add: colMinWidth_def minWidthOrDefault_def parseMinWidth_def parseInt10_def
      isWhiteSpace_def isDigit_def digitValue_def)

lemma colMinWidth_unparsable:
  "parseInt10 (minWidthOrDefault col) = None \<Longrightarrow> colMinWidth col = 100"
  by (simp add: colMinWidth_def parseMinWidth_def)

lemma foldl_pass1_step:
  "foldl pass1_step (vis, acc) cs =
     (vis @ filter isMustShow cs, acc + sum_list (map colMinWidth (filter isMustShow cs)))"
  by (induction cs arbitrary: vis acc) (simp_all add: pass1_step_def)

lemma pass1_eq:
  "pass1 cs = (filter isMustShow cs, sum_list (map colMinWidth (filter isMustShow cs)))"
  by (simp add: pass1_def foldl_pass1_step)

lemma pass2_step_grows: "set (fst st) \<subseteq> set (fst (pass2_step w st c))"
  by (cases st) (auto simp: pass2_step_def)

lemma foldl_pass2_grows: "set (fst st) \<subseteq> set (fst (foldl (pass2_step w) st cs))"
proof (induction cs arbitrary: st)
  case Nil
  show ?case by simp
next
  case (Cons c cs)
  have "set (fst st) \<subseteq> set (fst (pass2_step w st c))"
    by (rule pass2_step_grows)
  also have "\<dots> \<subseteq> set (fst (foldl (pass2_step w) (pass2_step w st c) cs))"
    by (rule Cons.IH)
  finally show ?case by simp
qed

lemma pass2_step_within: "set (fst (pass2_step w st c)) \<subseteq> insert c (set (fst st))"
  by (cases st) (auto simp: pass2_step_def)

lemma foldl_pass2_within: "set (fst (foldl (pass2_step w) st cs)) \<subseteq> set (fst st) \<union> set cs"
proof (induction cs arbitrary: st)
  case Nil
  show ?case by simp
next
  case (Cons c cs)
  from Cons.IH [of "pass2_step w st c"] pass2_step_within [of w st c]
  show ?case by auto
qed

lemma pass2_step_distinct_fields:
  "distinct (map field (fst st)) \<Longrightarrow> distinct (map field (fst (pass2_step w st c)))"
  by (cases st) (auto simp: pass2_step_def find_None_iff)

lemma foldl_pass2_distinct_fields:
  "distinct (map field (fst st)) \<Longrightarrow> distinct (map field (fst (foldl (pass2_step w) st cs)))"
  by (induction cs arbitrary: st) (simp_all add: pass2_step_distinct_fields)

text \<open>Once no remaining optional column fits, pass 2 changes nothing.\<close>

lemma foldl_pass2_stuck:
  "\<forall>c\<in>set cs. \<not> isMustShow c \<longrightarrow> w \<le> acc + colMinWidth c \<Longrightarrow>
   foldl (pass2_step w) (vis, acc) cs = (vis, acc)"
  by (induction cs) (auto simp: pass2_step_def)

text \<open>
  Two runs of pass 2 at widths \<open>w1 \<le> w2\<close> agree until the narrower one rejects a column
  for lack of room; when the optional widths never decrease, the narrower run then
  rejects every later column too.
\<close>

lemma foldl_pass2_mono:
  assumes "sorted (map colMinWidth (filter (\<lambda>c. \<not> isMustShow c) cs))" and "w1 \<le> w2"
  shows "set (fst (foldl (pass2_step w1) (vis, acc) cs))
           \<subseteq> set (fst (foldl (pass2_step w2) (vis, acc) cs))"
  using assms(1)
proof (induction cs arbitrary: vis acc)
  case Nil
  show ?case by simp
next
  case (Cons c cs)
  have tl_sorted: "sorted (map colMinWidth (filter (\<lambda>c. \<not> isMustShow c) cs))"
    using Cons.prems by (simp split: if_splits)
  show ?case
  proof (cases "pass2_step w1 (vis, acc) c = pass2_step w2 (vis, acc) c")
    case True
    obtain vis' acc' where st: "pass2_step w2 (vis, acc) c = (vis', acc')"
      by (cases "pass2_step w2 (vis, acc) c")
    from Cons.IH [OF tl_sorted, of vis' acc'] True st show ?thesis by simp
  next
    case False
    with \<open>w1 \<le> w2\<close> have c: "\<not> isMustShow c" "w1 \<le> acc + colMinWidth c"
      and s1: "pass2_step w1 (vis, acc) c = (vis, acc)"
      by (auto simp: pass2_step_def split: if_splits)
    from Cons.prems c(1) have "\<forall>d\<in>set cs. \<not> isMustShow d \<longrightarrow> colMinWidth c \<le> colMinWidth d"
      by auto
    with c(2) have "\<forall>d\<in>set cs. \<not> isMustShow d \<longrightarrow> w1 \<le> acc + colMinWidth d"
      by fastforce
    then have "foldl (pass2_step w1) (vis, acc) cs = (vis, acc)"
      by (rule foldl_pass2_stuck)
    with s1 have "set (fst (foldl (pass2_step w1) (vis, acc) (c # cs))) = set vis"
      by simp
    also have "\<dots> \<subseteq> set (fst (pass2_step w2 (vis, acc) c))"
      using pass2_step_grows [of "(vis, acc)" w2 c] by simp
    also have "\<dots> \<subseteq> set (fst (foldl (pass2_step w2) (pass2_step w2 (vis, acc) c) cs))"
      by (rule foldl_pass2_grows)
    finally show ?thesis by simp
  qed
qed

lemma pass2_step_singleField:
  "singleField (fst st) \<Longrightarrow> singleField (fst (pass2_step w st c))"
  by (cases st) (auto simp: pass2_step_def singleField_def find_None_iff filter_empty_conv)

lemma foldl_pass2_singleField:
  "singleField (fst st) \<Longrightarrow> singleField (fst (foldl (pass2_step w) st cs))"
  by (induction cs arbitrary: st) (simp_all add: pass2_step_singleField)

text \<open>
  With unique fields in the master list, the check of pass 2 for a column of the same
  field is the check whether the column itself is selected already.
\<close>

lemma same_field_iff_member:
  assumes "distinct (map field ms)" and "set vis \<subseteq> set ms" and "col \<in> set ms"
  shows "(\<exists>c\<in>set vis. field c = field col) = (col \<in> set vis)"
  using assms by (auto simp: distinct_map dest: inj_onD)

section \<open>The final sort\<close>

lemma findIndexFrom_first:
  "\<forall>x\<in>set pre. \<not> P x \<Longrightarrow> P a \<Longrightarrow> findIndexFrom P i (pre @ a # post) = i + int (length pre)"
  by (induction pre arbitrary: i) simp_all

lemma masterIndex_nth:
  assumes "distinct (map field ms)" and "j < length ms"
  shows "masterIndex ms (ms ! j) = int j"
proof -
  have split: "ms = take j ms @ ms ! j # drop (Suc j) ms"
    using assms(2) by (simp add: id_take_nth_drop)
  have "field x \<noteq> field (ms ! j)" if "x \<in> set (take j ms)" for x
  proof -
    from that obtain k where k: "k < j" "x = ms ! k"
      using assms(2) by (auto simp: in_set_conv_nth)
    have "(map field ms ! k = map field ms ! j) = (k = j)"
      using assms k by (intro nth_eq_iff_index_eq) simp_all
    with k assms(2) show ?thesis by simp
  qed
  then have "findIndexFrom (\<lambda>m. field m = field (ms ! j)) 0 (take j ms @ ms ! j # drop (Suc j) ms)
               = 0 + int (length (take j ms))"
    by (intro findIndexFrom_first) auto
  with split assms(2) show ?thesis
    by (simp add: masterIndex_def findIndex_def)
qed

lemma map_masterIndex:
  "distinct (map field ms) \<Longrightarrow> map (masterIndex ms) ms = map int [0..<length ms]"
  by (rule nth_equalityI) (simp_all add: masterIndex_nth)

lemma sorted_masterIndex: "distinct (map field ms) \<Longrightarrow> sorted (map (masterIndex ms) ms)"
  by (simp add: map_masterIndex sorted_map sorted_wrt_map)

lemma inj_on_masterIndex: "distinct (map field ms) \<Longrightarrow> inj_on (masterIndex ms) (set ms)"
proof -
  assume d: "distinct (map field ms)"
  have "distinct (map int [0..<length ms])"
    by (simp add: distinct_map)
  with d have "distinct (map (masterIndex ms) ms)"
    by (simp add: map_masterIndex)
  then show ?thesis by (simp add: distinct_map)
qed

text \<open>
  Sorting a duplicate-free selection by master index gives the master list restricted to
  the selection: both lists are sorted by an injective key and have the same elements.
\<close>

lemma sort_by_masterIndex:
  assumes d: "distinct (map field ms)" and dv: "distinct vis" and sub: "set vis \<subseteq> set ms"
  shows "sort_key (masterIndex ms) vis = filter (\<lambda>c. c \<in> set vis) ms"
proof -
  let ?k = "masterIndex ms"
  let ?xs = "sort_key ?k vis" and ?ys = "filter (\<lambda>c. c \<in> set vis) ms"
  have inj: "inj_on ?k (set ms)" using d by (rule inj_on_masterIndex)
  have dms: "distinct ms" using d by (simp add: distinct_map)
  have sets: "set ?xs = set ?ys" using sub by auto
  have "sorted (map ?k ?xs)" by simp
  moreover have "distinct (map ?k ?xs)"
    using dv sub inj by (simp add: distinct_map inj_on_subset)
  moreover have "sorted (map ?k ?ys)"
    using d by (intro sorted_filter sorted_masterIndex)
  moreover have "distinct (map ?k ?ys)"
    using dms inj by (auto simp: distinct_map intro: inj_on_subset)
  moreover have "set (map ?k ?xs) = set (map ?k ?ys)"
    using sets by simp
  ultimately have "map ?k ?xs = map ?k ?ys"
    by (rule sorted_distinct_set_unique)
  moreover have "inj_on ?k (set ?xs \<union> set ?ys)"
    using inj sub by (auto intro: inj_on_subset)
  ultimately show ?thesis
    by (simp add: inj_on_map_eq_map)
qed

lemma visible_distinct_fields:
  "distinct (map field ms) \<Longrightarrow> distinct (map field (fst (pass2 w ms (pass1 ms))))"
  unfolding pass2_def
  by (rule foldl_pass2_distinct_fields) (simp add: pass1_eq distinct_map_filter)

lemma visible_within: "set (fst (pass2 w ms (pass1 ms))) \<subseteq> set ms"
  using foldl_pass2_within [of w "pass1 ms" ms] by (auto simp: pass2_def pass1_eq)

lemma updateResponsiveColumns_filter:
  assumes "distinct (map field ms)"
  shows "updateResponsiveColumns ms w = filter (\<lambda>c. c \<in> set (fst (pass2 w ms (pass1 ms)))) ms"
proof (cases "ms = []")
  case True
  then show ?thesis by (simp add: updateResponsiveColumns_def)
next
  case False
  have "distinct (fst (pass2 w ms (pass1 ms)))"
    using visible_distinct_fields [OF assms] by (simp add: distinct_map)
  with assms visible_within False show ?thesis
    by (simp add: updateResponsiveColumns_def sort_by_masterIndex)
qed

lemma set_updateResponsiveColumns:
  "set (updateResponsiveColumns ms w) = set (fst (pass2 w ms (pass1 ms)))"
  using visible_within [of w ms] by (auto simp: updateResponsiveColumns_def)

lemma singleField_output: "singleField (updateResponsiveColumns ms w)"
proof (cases "ms = []")
  case True
  then show ?thesis by (simp add: updateResponsiveColumns_def singleField_def)
next
  case False
  have "singleField (fst (pass1 ms))"
    by (simp add: pass1_eq singleField_def)
  then have "singleField (fst (pass2 w ms (pass1 ms)))"
    unfolding pass2_def by (rule foldl_pass2_singleField)
  then show ?thesis
    using False by (simp add: updateResponsiveColumns_def singleField_def filter_sort)
qed

lemma two_hits_filter:
  assumes "i < j" and "j < length xs" and "P (xs ! i)" and "P (xs ! j)"
  shows "2 \<le> length (filter P xs)"
proof -
  have split: "xs = take j xs @ xs ! j # drop (Suc j) xs"
    using assms(2) by (simp add: id_take_nth_drop)
  have "xs ! i \<in> set (take j xs)"
    using assms(1,2) by (auto simp: in_set_conv_nth intro!: exI [of _ i])
  with assms(3) have "filter P (take j xs) \<noteq> []"
    by (auto simp: filter_empty_conv)
  then have "1 \<le> length (filter P (take j xs))"
    by (cases "filter P (take j xs)") simp_all
  moreover have "length (filter P xs)
      = length (filter P (take j xs)) + length (filter P (xs ! j # drop (Suc j) xs))"
    by (subst split) simp
  ultimately show ?thesis using assms(4) by simp
qed

section \<open>The date pattern\<close>

lemma matchesPrefix_length: "matchesPrefix ps s \<Longrightarrow> length ps \<le> length s"
  by (induction ps s rule: matchesPrefix.induct) simp_all

lemma matchesPrefix_digits:
  "n + k \<le> length s \<Longrightarrow>
   matchesPrefix (replicate k Digit @ ps) (drop n s)
     = (list_all isDigit (take k (drop n s)) \<and> matchesPrefix ps (drop (n + k) s))"
proof (induction k arbitrary: n)
  case 0
  show ?case by simp
next
  case (Suc k)
  then have "n < length s" by simp
  then have d: "drop n s = s ! n # drop (Suc n) s"
    by (simp add: Cons_nth_drop_Suc)
  from Suc.prems have "Suc n + k \<le> length s" by simp
  from Suc.IH [OF this] show ?case
    by (simp add: d)
qed

lemma matchesPrefix_digits_end:
  "n + k \<le> length s \<Longrightarrow>
   matchesPrefix (replicate k Digit) (drop n s) = list_all isDigit (take k (drop n s))"
  using matchesPrefix_digits [of n k s "[]"] by simp

lemma matchesPrefix_literal:
  "n < length s \<Longrightarrow>
   matchesPrefix (Lit l # ps) (drop n s) = (s ! n = l \<and> matchesPrefix ps (drop (Suc n) s))"
  by (simp add: Cons_nth_drop_Suc [symmetric])

lemma isoDatePattern_at:
  assumes "n + 19 \<le> length s"
  shows "matchesPrefix isoDatePattern (drop n s)
     = (list_all isDigit (take 4 (drop n s)) \<and> s ! (n + 4) = CHR ''-'' \<and>
        list_all isDigit (take 2 (drop (n + 5) s)) \<and> s ! (n + 7) = CHR ''-'' \<and>
        list_all isDigit (take 2 (drop (n + 8) s)) \<and> s ! (n + 10) = CHR ''T'' \<and>
        list_all isDigit (take 2 (drop (n + 11) s)) \<and> s ! (n + 13) = CHR '':'' \<and>
        list_all isDigit (take 2 (drop (n + 14) s)) \<and> s ! (n + 16) = CHR '':'' \<and>
        list_all isDigit (take 2 (drop (n + 17) s)))"
  using assms
  by (simp add: isoDatePattern_def matchesPrefix_digits matchesPrefix_digits_end
      matchesPrefix_literal add.commute)

lemma isoDatePattern_spec: "matchesPrefix isoDatePattern s = spec_datePrefix s"
proof (cases "19 \<le> length s")
  case True
  then have "0 + 19 \<le> length s" by simp
  from isoDatePattern_at [OF this] True show ?thesis
    by (simp add: spec_datePrefix_def)
next
  case False
  have "length isoDatePattern = 19"
    by (simp add: isoDatePattern_def)
  with False matchesPrefix_length [of isoDatePattern s] have "\<not> matchesPrefix isoDatePattern s"
    by auto
  with False show ?thesis
    by (simp add: spec_datePrefix_def)
qed

lemma toUpperCase_space: "toUpperCase (CHR '' '') = CHR '' ''"
  by (simp add: toUpperCase_def)

section \<open>Reads that throw\<close>

lemma colMinWidth_empty: "minWidth col = Some [] \<Longrightarrow> colMinWidth col = 100"
  by (simp add: colMinWidth_def minWidthOrDefault_def parseMinWidth_def parseInt10_def
      isWhiteSpace_def isDigit_def digitValue_def)

lemma colMinWidth_parsed:
  "minWidth col = Some s \<Longrightarrow> s \<noteq> [] \<Longrightarrow> parseInt10 s = Some n \<Longrightarrow> colMinWidth col = n"
  by (simp add: colMinWidth_def minWidthOrDefault_def parseMinWidth_def)

lemma deriveColumns_returns:
  "\<forall>k\<in>set keys. \<exists>v. readProperty item k = Inr v \<Longrightarrow>
   deriveColumns flt item keys = Inr (map (deriveColumn flt item) keys)"
  by (induction keys) auto

lemma deriveColumns_throws:
  "k \<in> set keys \<Longrightarrow> readProperty item k = Inl e \<Longrightarrow> \<exists>e'. deriveColumns flt item keys = Inl e'"
  by (induction keys) (auto split: sum.splits)

lemma deriveColumns_error_of_object:
  "deriveColumns flt (ItemObject props) keys = Inl e \<Longrightarrow> e = AccessorError"
  by (induction keys)
    (auto simp: readProperty_def split: sum.splits option.splits js_property.splits)

lemma readProperty_data:
  assumes "ThrowingAccessor \<notin> snd ` set props"
  shows "\<exists>v. readProperty (ItemObject props) k = Inr v"
proof (cases "map_of props k")
  case None
  then show ?thesis by (simp add: readProperty_def)
next
  case (Some p)
  then have "(k, p) \<in> set props" by (rule map_of_SomeD)
  with assms have "p \<noteq> ThrowingAccessor" by force
  with Some show ?thesis
    by (cases p) (simp_all add: readProperty_def)
qed

section \<open>Claims about the column selection\<close>

text \<open>
  C1, as the code has it. Widening the table can remove a column: a wide optional
  column that did not fit before now takes the room that a later, narrower one had.
  What holds: when the effective minimum widths of the optional (not mandatory) columns
  never decrease along the master order (in particular when they are all equal, as for
  derived columns), every column selected at width \<open>w1\<close> is selected at every width
  \<open>w2 \<ge> w1\<close>.
\<close>

theorem wider_table_keeps_columns:
  assumes "sorted (map colMinWidth (filter (\<lambda>c. \<not> isMustShow c) ms))" and "w1 \<le> w2"
  shows "set (updateResponsiveColumns ms w1) \<subseteq> set (updateResponsiveColumns ms w2)"
proof -
  obtain vis acc where p1: "pass1 ms = (vis, acc)"
    by (cases "pass1 ms")
  from foldl_pass2_mono [OF assms, of vis acc] p1 show ?thesis
    by (simp add: set_updateResponsiveColumns pass2_def)
qed

theorem wider_table_keeps_columns_witness:
  "sorted (map colMinWidth (filter (\<lambda>c. \<not> isMustShow c)
      [columnLiteral ''id'' (Some True) (Some ''60px''), columnLiteral ''b'' None (Some ''50px''),
       columnLiteral ''a'' None (Some ''100px'')])) \<and> (130 :: int) \<le> 230 \<and>
   set (updateResponsiveColumns
      [columnLiteral ''id'' (Some True) (Some ''60px''), columnLiteral ''b'' None (Some ''50px''),
       columnLiteral ''a'' None (Some ''100px'')] 130)
   \<subseteq> set (updateResponsiveColumns
      [columnLiteral ''id'' (Some True) (Some ''60px''), columnLiteral ''b'' None (Some ''50px''),
       columnLiteral ''a'' None (Some ''100px'')] 230)"
proof -
  have h: "sorted (map colMinWidth (filter (\<lambda>c. \<not> isMustShow c)
      [columnLiteral ''id'' (Some True) (Some ''60px''), columnLiteral ''b'' None (Some ''50px''),
       columnLiteral ''a'' None (Some ''100px'')]))"
    by code_simp
  have w: "(130 :: int) \<le> 230" by simp
  from wider_table_keeps_columns [OF h w] h show ?thesis by simp
qed

text \<open>
  C1 as stated fails: of the columns \<open>a\<close> (100px) and \<open>b\<close> (50px), neither mandatory,
  width 60 selects \<open>b\<close> alone and width 120 selects \<open>a\<close> alone.
\<close>

theorem wider_table_drops_column_counterexample:
  "(60 :: int) \<le> 120 \<and>
   updateResponsiveColumns
     [columnLiteral ''a'' None (Some ''100px''), columnLiteral ''b'' None (Some ''50px'')] 60
     = [columnLiteral ''b'' None (Some ''50px'')] \<and>
   updateResponsiveColumns
     [columnLiteral ''a'' None (Some ''100px''), columnLiteral ''b'' None (Some ''50px'')] 120
     = [columnLiteral ''a'' None (Some ''100px'')] \<and>
   columnLiteral ''b'' None (Some ''50px'')
     \<in> set (updateResponsiveColumns
              [columnLiteral ''a'' None (Some ''100px''), columnLiteral ''b'' None (Some ''50px'')] 60) \<and>
   columnLiteral ''b'' None (Some ''50px'')
     \<notin> set (updateResponsiveColumns
              [columnLiteral ''a'' None (Some ''100px''), columnLiteral ''b'' None (Some ''50px'')] 120)"
  by code_simp

text \<open>
  C2. In the run of pass 2 over the master list, at a column that is not mandatory and
  not yet included (the code tests this by \<open>field\<close>: no column selected so far has the
  same field), with \<open>(vis, acc)\<close> the selection and accumulated width that pass 1 and
  the columns before it have left: the column is appended exactly when the table width
  is strictly greater than \<open>acc\<close> plus the column's minimum width, and then that minimum
  width is added to \<open>acc\<close>; otherwise nothing changes. The rest of pass 2 continues from
  there, and the column is in the displayed result exactly in the first case (when it
  does not occur again later in the master list); at equality it is left out. The
  minimum width is the parsed \<open>minWidth\<close>, and 100 when \<open>minWidth\<close> is missing, empty or
  unparsable.
\<close>

theorem pass2_includes_iff_strictly_wider:
  assumes "ms = pre @ col # post"
    and "\<not> isMustShow col"
    and "pass2 w pre (pass1 ms) = (vis, acc)"
    and "\<forall>c\<in>set vis. field c \<noteq> field col"
  shows "pass2 w (pre @ [col]) (pass1 ms)
           = (if w > acc + colMinWidth col then (vis @ [col], acc + colMinWidth col)
              else (vis, acc)) \<and>
         pass2 w ms (pass1 ms) = pass2 w post (pass2 w (pre @ [col]) (pass1 ms)) \<and>
         (w > acc + colMinWidth col \<longrightarrow> col \<in> set (updateResponsiveColumns ms w)) \<and>
         (col \<notin> set post \<longrightarrow>
            (col \<in> set (updateResponsiveColumns ms w) \<longleftrightarrow> w > acc + colMinWidth col)) \<and>
         (col \<notin> set post \<and> w = acc + colMinWidth col \<longrightarrow>
            col \<notin> set (updateResponsiveColumns ms w)) \<and>
         (minWidth col = Some s \<and> s \<noteq> [] \<and> parseInt10 s = Some n \<longrightarrow> colMinWidth col = n) \<and>
         (minWidth col = None \<or> minWidth col = Some [] \<or>
          parseInt10 (minWidthOrDefault col) = None \<longrightarrow> colMinWidth col = 100)"
proof -
  let ?m = "colMinWidth col"
  let ?after = "pass2 w (pre @ [col]) (pass1 ms)"
  from assms(4) have nf: "find (\<lambda>c. field c = field col) vis = None"
    by (simp add: find_None_iff)
  from assms(4) have nm: "col \<notin> set vis" by auto
  have "?after = pass2_step w (pass2 w pre (pass1 ms)) col"
    by (simp add: pass2_def)
  with assms(2,3) nf
  have step: "?after = (if w > acc + ?m then (vis @ [col], acc + ?m) else (vis, acc))"
    by (simp add: pass2_step_def)
  have run: "pass2 w ms (pass1 ms) = pass2 w post ?after"
    by (simp add: pass2_def assms(1))
  have out: "set (updateResponsiveColumns ms w) = set (fst (pass2 w post ?after))"
    by (simp add: set_updateResponsiveColumns run)
  have incl: "col \<in> set (updateResponsiveColumns ms w)" if "w > acc + ?m"
  proof -
    from that step have "col \<in> set (fst ?after)" by simp
    with foldl_pass2_grows [of ?after w post] show ?thesis
      by (auto simp: out pass2_def)
  qed
  have excl: "col \<notin> set (updateResponsiveColumns ms w)" if "col \<notin> set post" "\<not> w > acc + ?m"
  proof -
    from that(2) step have "fst ?after = vis" by simp
    with foldl_pass2_within [of w ?after post]
    have "set (updateResponsiveColumns ms w) \<subseteq> set vis \<union> set post"
      by (simp add: out pass2_def)
    with nm that(1) show ?thesis by auto
  qed
  have widths: "(minWidth col = Some s \<and> s \<noteq> [] \<and> parseInt10 s = Some n \<longrightarrow> ?m = n) \<and>
      (minWidth col = None \<or> minWidth col = Some [] \<or>
       parseInt10 (minWidthOrDefault col) = None \<longrightarrow> ?m = 100)"
    using colMinWidth_missing [of col] colMinWidth_empty [of col]
      colMinWidth_unparsable [of col] colMinWidth_parsed [of col s n]
    by blast
  from incl excl have iff: "col \<notin> set post \<longrightarrow>
      (col \<in> set (updateResponsiveColumns ms w) \<longleftrightarrow> w > acc + ?m)"
    by blast
  have eq: "col \<notin> set post \<and> w = acc + ?m \<longrightarrow>
      col \<notin> set (updateResponsiveColumns ms w)"
  proof
    assume h: "col \<notin> set post \<and> w = acc + ?m"
    then have "\<not> w > acc + ?m" by simp
    with h show "col \<notin> set (updateResponsiveColumns ms w)"
      using excl by blast
  qed
  from step run incl iff eq widths show ?thesis
    by blast
qed

theorem pass2_includes_iff_strictly_wider_witness:
  "\<not> isMustShow (columnLiteral ''email'' None (Some ''200px'')) \<and>
   \<not> isMustShow (columnLiteral ''phone'' None None) \<and>
   parseInt10 ''200px'' = Some 200 \<and>
   colMinWidth (columnLiteral ''email'' None (Some ''200px'')) = 200 \<and>
   colMinWidth (columnLiteral ''phone'' None None) = 100 \<and>
   pass2 260 [columnLiteral ''id'' (Some True) (Some ''60px'')]
     (pass1 [columnLiteral ''id'' (Some True) (Some ''60px''),
             columnLiteral ''email'' None (Some ''200px''), columnLiteral ''phone'' None None])
     = ([columnLiteral ''id'' (Some True) (Some ''60px'')], 60) \<and>
   pass2 260 [columnLiteral ''id'' (Some True) (Some ''60px''),
              columnLiteral ''email'' None (Some ''200px'')]
     (pass1 [columnLiteral ''id'' (Some True) (Some ''60px''),
             columnLiteral ''email'' None (Some ''200px''), columnLiteral ''phone'' None None])
     = ([columnLiteral ''id'' (Some True) (Some ''60px'')], 60) \<and>
   columnLiteral ''email'' None (Some ''200px'')
     \<notin> set (updateResponsiveColumns
         [columnLiteral ''id'' (Some True) (Some ''60px''),
          columnLiteral ''email'' None (Some ''200px''), columnLiteral ''phone'' None None] 260) \<and>
   columnLiteral ''phone'' None None
     \<in> set (updateResponsiveColumns
         [columnLiteral ''id'' (Some True) (Some ''60px''),
          columnLiteral ''email'' None (Some ''200px''), columnLiteral ''phone'' None None] 260) \<and>
   pass2 261 [columnLiteral ''id'' (Some True) (Some ''60px''),
              columnLiteral ''email'' None (Some ''200px'')]
     (pass1 [columnLiteral ''id'' (Some True) (Some ''60px''),
             columnLiteral ''email'' None (Some ''200px''), columnLiteral ''phone'' None None])
     = ([columnLiteral ''id'' (Some True) (Some ''60px''),
         columnLiteral ''email'' None (Some ''200px'')], 260) \<and>
   columnLiteral ''email'' None (Some ''200px'')
     \<in> set (updateResponsiveColumns
         [columnLiteral ''id'' (Some True) (Some ''60px''),
          columnLiteral ''email'' None (Some ''200px''), columnLiteral ''phone'' None None] 261)"
proof -
  let ?id = "columnLiteral ''id'' (Some True) (Some ''60px'')"
  let ?email = "columnLiteral ''email'' None (Some ''200px'')"
  let ?phone = "columnLiteral ''phone'' None None"
  let ?ms = "[?id, ?email, ?phone]"
  have ms1: "?ms = [?id] @ ?email # [?phone]" by simp
  have ms2: "?ms = [?id, ?email] @ ?phone # []" by simp
  have me: "\<not> isMustShow ?email" by code_simp
  have mp: "\<not> isMustShow ?phone" by code_simp
  have fld: "\<forall>c\<in>set [?id]. field c \<noteq> field ?email" by code_simp
  have fld2: "\<forall>c\<in>set [?id]. field c \<noteq> field ?phone" by code_simp
  have p200: "parseInt10 ''200px'' = Some 200" by code_simp
  have mw: "minWidth ?email = Some ''200px'' \<and> ''200px'' \<noteq> []"
    by (simp add: columnLiteral_def)
  have mn: "minWidth ?phone = None"
    by (simp add: columnLiteral_def)
  have np: "?email \<notin> set [?phone]" by code_simp
  have st260: "pass2 260 [?id] (pass1 ?ms) = ([?id], 60)" by code_simp
  have st261: "pass2 261 [?id] (pass1 ?ms) = ([?id], 60)" by code_simp
  have st260b: "pass2 260 [?id, ?email] (pass1 ?ms) = ([?id], 60)" by code_simp
  note a = pass2_includes_iff_strictly_wider
    [OF ms1 me st260 fld, where s = "''200px''" and n = 200]
  note b = pass2_includes_iff_strictly_wider
    [OF ms1 me st261 fld, where s = "''200px''" and n = 200]
  note c = pass2_includes_iff_strictly_wider [OF ms2 mp st260b fld2]
  from a mw p200 have we: "colMinWidth ?email = 200" by blast
  from c mn have wp: "colMinWidth ?phone = 100" by blast
  from a we np have a1: "?email \<notin> set (updateResponsiveColumns ?ms 260)"
    by simp
  from a we have a2: "pass2 260 ([?id] @ [?email]) (pass1 ?ms) = ([?id], 60)"
    by simp
  from b we have b1: "pass2 261 ([?id] @ [?email]) (pass1 ?ms) = ([?id] @ [?email], 260)"
    by simp
  from b we have b2: "?email \<in> set (updateResponsiveColumns ?ms 261)"
    by simp
  from c wp have c1: "?phone \<in> set (updateResponsiveColumns ?ms 260)"
    by simp
  from me mp p200 we wp st260 a1 a2 b1 b2 c1 show ?thesis
    by simp
qed

text \<open>
  C3. When every column of the master list is mandatory, the result is the master list
  itself, element for element in the original order, at every width, zero and negative
  widths included. Master lists have unique field values, as the data model requires.
\<close>

theorem all_mandatory_unique_fields_returns_master:
  assumes "distinct (map field ms)" and "\<forall>c\<in>set ms. isMustShow c"
  shows "updateResponsiveColumns ms w = ms"
proof -
  from assms(2) have "filter isMustShow ms = ms" by simp
  then have "fst (pass1 ms) = ms" by (simp add: pass1_eq)
  with foldl_pass2_grows [of "pass1 ms" w ms]
  have "set ms \<subseteq> set (fst (pass2 w ms (pass1 ms)))"
    by (simp add: pass2_def)
  then have "filter (\<lambda>c. c \<in> set (fst (pass2 w ms (pass1 ms)))) ms = ms"
    by (auto simp: filter_id_conv)
  with updateResponsiveColumns_filter [OF assms(1), of w] show ?thesis by simp
qed

theorem all_mandatory_unique_fields_returns_master_witness:
  "distinct (map field [columnLiteral ''id'' (Some True) (Some ''60px''),
                        columnLiteral ''name'' (Some True) (Some ''150px'')]) \<and>
   isMustShow (columnLiteral ''id'' (Some True) (Some ''60px'')) \<and>
   isMustShow (columnLiteral ''name'' (Some True) (Some ''150px'')) \<and>
   updateResponsiveColumns
     [columnLiteral ''id'' (Some True) (Some ''60px''),
      columnLiteral ''name'' (Some True) (Some ''150px'')] (- 10)
   = [columnLiteral ''id'' (Some True) (Some ''60px''),
      columnLiteral ''name'' (Some True) (Some ''150px'')]"
proof -
  let ?ms = "[columnLiteral ''id'' (Some True) (Some ''60px''),
              columnLiteral ''name'' (Some True) (Some ''150px'')]"
  have d: "distinct (map field ?ms)"
    by code_simp
  have m: "\<forall>c\<in>set ?ms. isMustShow c"
    by code_simp
  from all_mandatory_unique_fields_returns_master [OF d m, of "- 10"] d m show ?thesis
    by simp
qed

text \<open>
  C4. With unique field values in the master list, the result is a subsequence of the
  master list: it is the master list restricted to the selected columns, in master order.
\<close>

theorem output_is_master_subsequence:
  assumes "distinct (map field ms)"
  shows "subseq (updateResponsiveColumns ms w) ms \<and>
         updateResponsiveColumns ms w = filter (\<lambda>c. c \<in> set (updateResponsiveColumns ms w)) ms"
proof -
  let ?vis = "fst (pass2 w ms (pass1 ms))"
  have eq: "updateResponsiveColumns ms w = filter (\<lambda>c. c \<in> set ?vis) ms"
    using assms by (rule updateResponsiveColumns_filter)
  have s: "set (updateResponsiveColumns ms w) = set ?vis"
    by (rule set_updateResponsiveColumns)
  have "subseq (updateResponsiveColumns ms w) ms"
    unfolding eq by simp
  moreover have "updateResponsiveColumns ms w
      = filter (\<lambda>c. c \<in> set (updateResponsiveColumns ms w)) ms"
    unfolding s by (rule eq)
  ultimately show ?thesis ..
qed

theorem output_is_master_subsequence_witness:
  "distinct (map field
     [columnLiteral ''id'' (Some True) (Some ''60px''), columnLiteral ''email'' None (Some ''200px''),
      columnLiteral ''name'' (Some True) (Some ''150px''), columnLiteral ''phone'' None (Some ''150px'')]) \<and>
   subseq (updateResponsiveColumns
     [columnLiteral ''id'' (Some True) (Some ''60px''), columnLiteral ''email'' None (Some ''200px''),
      columnLiteral ''name'' (Some True) (Some ''150px''), columnLiteral ''phone'' None (Some ''150px'')] 420)
     [columnLiteral ''id'' (Some True) (Some ''60px''), columnLiteral ''email'' None (Some ''200px''),
      columnLiteral ''name'' (Some True) (Some ''150px''), columnLiteral ''phone'' None (Some ''150px'')] \<and>
   updateResponsiveColumns
     [columnLiteral ''id'' (Some True) (Some ''60px''), columnLiteral ''email'' None (Some ''200px''),
      columnLiteral ''name'' (Some True) (Some ''150px''), columnLiteral ''phone'' None (Some ''150px'')] 420
   = [columnLiteral ''id'' (Some True) (Some ''60px''), columnLiteral ''email'' None (Some ''200px''),
      columnLiteral ''name'' (Some True) (Some ''150px'')]"
proof -
  let ?ms = "[columnLiteral ''id'' (Some True) (Some ''60px''), columnLiteral ''email'' None (Some ''200px''),
      columnLiteral ''name'' (Some True) (Some ''150px''), columnLiteral ''phone'' None (Some ''150px'')]"
  have d: "distinct (map field ?ms)"
    by code_simp
  have v: "updateResponsiveColumns ?ms 420
   = [columnLiteral ''id'' (Some True) (Some ''60px''), columnLiteral ''email'' None (Some ''200px''),
      columnLiteral ''name'' (Some True) (Some ''150px'')]"
    by code_simp
  from output_is_master_subsequence [OF d, of 420] d v show ?thesis
    by simp
qed




text \<open>
  C9. When no column of the master list is mandatory, every effective minimum width is
  non-negative and the table width is at most 0, the result is empty.
\<close>

theorem narrow_table_without_mandatory_is_empty:
  assumes "\<forall>c\<in>set ms. \<not> isMustShow c \<and> 0 \<le> colMinWidth c" and "w \<le> 0"
  shows "updateResponsiveColumns ms w = []"
proof -
  from assms(1) have none: "filter isMustShow ms = []"
    by (simp add: filter_empty_conv)
  have "\<forall>c\<in>set ms. \<not> isMustShow c \<longrightarrow> w \<le> 0 + colMinWidth c"
    using assms by fastforce
  then have "foldl (pass2_step w) ([], 0) ms = ([], 0)"
    by (rule foldl_pass2_stuck)
  with none show ?thesis
    by (simp add: updateResponsiveColumns_def pass2_def pass1_eq)
qed

theorem narrow_table_without_mandatory_is_empty_witness:
  "\<not> isMustShow (columnLiteral ''email'' None (Some ''200px'')) \<and>
   0 \<le> colMinWidth (columnLiteral ''email'' None (Some ''200px'')) \<and>
   \<not> isMustShow (columnLiteral ''phone'' (Some False) None) \<and>
   0 \<le> colMinWidth (columnLiteral ''phone'' (Some False) None) \<and>
   (- 5 :: int) \<le> 0 \<and>
   updateResponsiveColumns
     [columnLiteral ''email'' None (Some ''200px''), columnLiteral ''phone'' (Some False) None] (- 5) = []"
proof -
  have h: "\<forall>c\<in>set [columnLiteral ''email'' None (Some ''200px''), columnLiteral ''phone'' (Some False) None].
      \<not> isMustShow c \<and> 0 \<le> colMinWidth c"
    by code_simp
  have w: "(- 5 :: int) \<le> 0" by simp
  from narrow_table_without_mandatory_is_empty [OF h w] h show ?thesis by simp
qed

text \<open>
  C10. Two entries of the result at different positions have the same \<open>field\<close> only when
  both are mandatory, for every master list, duplicate fields included; and the body of
  pass 2 leaves the selection unchanged at a column that is not mandatory when a selected
  column has the same field, whatever the table width.
\<close>

theorem no_duplicate_field_unless_mandatory:
  "(i < length (updateResponsiveColumns ms w) \<and> j < length (updateResponsiveColumns ms w) \<and>
    i \<noteq> j \<and> field (updateResponsiveColumns ms w ! i) = field (updateResponsiveColumns ms w ! j)
    \<longrightarrow> isMustShow (updateResponsiveColumns ms w ! i) \<and> isMustShow (updateResponsiveColumns ms w ! j)) \<and>
   (\<not> isMustShow col \<and> (\<exists>c\<in>set vis. field c = field col)
    \<longrightarrow> pass2_step w' (vis, acc) col = (vis, acc))"
proof -
  let ?out = "updateResponsiveColumns ms w"
  have one: "isMustShow (?out ! a)"
    if "a < length ?out" "b < length ?out" "a \<noteq> b" "field (?out ! a) = field (?out ! b)" for a b
  proof (rule ccontr)
    assume "\<not> isMustShow (?out ! a)"
    with that(1) singleField_output [of ms w]
    have l: "length (filter (\<lambda>d. field d = field (?out ! a)) ?out) = 1"
      by (simp add: singleField_def)
    have "2 \<le> length (filter (\<lambda>d. field d = field (?out ! a)) ?out)"
    proof (cases "a < b")
      case True
      with that show ?thesis by (intro two_hits_filter [of a b]) simp_all
    next
      case False
      with that have "b < a" by simp
      with that show ?thesis by (intro two_hits_filter [of b a]) simp_all
    qed
    with l show False by simp
  qed
  have "pass2_step w' (vis, acc) col = (vis, acc)" if "\<exists>c\<in>set vis. field c = field col"
    using that by (auto simp: pass2_step_def find_None_iff)
  with one [of i j] one [of j i] show ?thesis by auto
qed

theorem no_duplicate_field_unless_mandatory_witness:
  "updateResponsiveColumns
     [columnLiteral ''id'' (Some True) (Some ''60px''), columnLiteral ''id'' (Some True) (Some ''80px''),
      columnLiteral ''id'' None (Some ''10px'')] 1000
     = [columnLiteral ''id'' (Some True) (Some ''60px''), columnLiteral ''id'' (Some True) (Some ''80px'')] \<and>
   isMustShow (columnLiteral ''id'' (Some True) (Some ''60px'')) \<and>
   isMustShow (columnLiteral ''id'' (Some True) (Some ''80px'')) \<and>
   \<not> isMustShow (columnLiteral ''id'' None (Some ''10px'')) \<and>
   pass2_step 1000
     ([columnLiteral ''id'' (Some True) (Some ''60px''), columnLiteral ''id'' (Some True) (Some ''80px'')], 140)
     (columnLiteral ''id'' None (Some ''10px''))
     = ([columnLiteral ''id'' (Some True) (Some ''60px''), columnLiteral ''id'' (Some True) (Some ''80px'')], 140)"
proof -
  let ?a = "columnLiteral ''id'' (Some True) (Some ''60px'')"
  let ?b = "columnLiteral ''id'' (Some True) (Some ''80px'')"
  let ?c = "columnLiteral ''id'' None (Some ''10px'')"
  have out: "updateResponsiveColumns [?a, ?b, ?c] 1000 = [?a, ?b]"
    by code_simp
  have nm: "\<not> isMustShow ?c"
    by code_simp
  have same: "field ?a = field ?b"
    by (simp add: columnLiteral_def)
  note t = no_duplicate_field_unless_mandatory
     [of 0 "[?a, ?b, ?c]" 1000 1 ?c "[?a, ?b]" 1000 140]
  from t out same have "isMustShow ?a \<and> isMustShow ?b"
    by simp
  moreover from t nm same have "pass2_step 1000 ([?a, ?b], 140) ?c = ([?a, ?b], 140)"
    by (simp add: columnLiteral_def)
  ultimately show ?thesis
    using out nm by simp
qed

section \<open>Claims about column derivation\<close>

text \<open>
  C6, as the code has it. The header is the key with a space inserted before every
  uppercase letter \<open>A\<close> to \<open>Z\<close>, a leading one included, and the first character of the
  result upper-cased: a key that begins with an uppercase letter gets a header that
  begins with a space. For the empty key and for every key that does not begin with an
  uppercase letter this is the space before every internal uppercase letter and the
  capitalised first character; the empty key gives the empty header.
\<close>

theorem capitalizeHeader_spaces_every_uppercase:
  "capitalizeHeader [] = [] \<and>
   capitalizeHeader (c # cs)
     = (if isUpperAZ c then CHR '' '' # c # replaceUpper cs else toUpperCase c # replaceUpper cs) \<and>
   (key = [] \<or> \<not> isUpperAZ (hd key) \<longrightarrow> capitalizeHeader key = spec_header key)"
proof -
  have step: "capitalizeHeader (d # ds)
     = (if isUpperAZ d then CHR '' '' # d # replaceUpper ds else toUpperCase d # replaceUpper ds)"
    for d ds
    by (simp add: capitalizeHeader_def replaceUpper_def toUpperCase_space)
  have "capitalizeHeader key = spec_header key" if "key = [] \<or> \<not> isUpperAZ (hd key)"
  proof (cases key)
    case Nil
    then show ?thesis by (simp add: capitalizeHeader_def spec_header_def)
  next
    case (Cons d ds)
    with that step [of d ds] show ?thesis by (simp add: spec_header_def)
  qed
  with step [of c cs] show ?thesis
    by (simp add: capitalizeHeader_def)
qed

theorem capitalizeHeader_spaces_every_uppercase_witness:
  "\<not> isUpperAZ (hd ''createdAt'') \<and> capitalizeHeader ''createdAt'' = ''Created At'' \<and>
   spec_header ''createdAt'' = ''Created At''"
proof -
  have h: "\<not> isUpperAZ (hd ''createdAt'')"
    by code_simp
  have v: "spec_header ''createdAt'' = ''Created At''"
    by code_simp
  from capitalizeHeader_spaces_every_uppercase
      [where key = "''createdAt''" and c = "CHR ''c''" and cs = "''reatedAt''"] h
  have "capitalizeHeader ''createdAt'' = spec_header ''createdAt''"
    by blast
  with h v show ?thesis
    by simp
qed

text \<open>
  C6 as stated fails at a key that begins with an uppercase letter: the key \<open>ID\<close> gives
  the header \<open> I D\<close>, with a leading space, where a space before the internal uppercase
  letters only gives \<open>I D\<close>.
\<close>

theorem capitalizeHeader_leading_uppercase_counterexample:
  "capitalizeHeader ''ID'' = '' I D'' \<and> spec_header ''ID'' = ''I D'' \<and>
   capitalizeHeader ''ID'' \<noteq> spec_header ''ID''"
  by code_simp

text \<open>
  C7. The guessed type of a value: boolean for a boolean; date for a \<open>Date\<close> object and
  for a string that starts with four digits, dash, two digits, dash, two digits, \<open>T\<close>, two
  digits, colon, two digits, colon, two digits; number for a number; string for every
  other string and every other value. The filter type is date for date, numeric for
  number, boolean for boolean and text otherwise, and a derived column carries both.
\<close>

theorem guessType_decision_table:
  "guessType (JSBoolean b :: 'n js_value) = TBoolean \<and>
   guessType (JSDate :: 'n js_value) = TDate \<and>
   guessType (JSString s :: 'n js_value) = (if spec_datePrefix s then TDate else TString) \<and>
   guessType (JSNumber n :: 'n js_value) = TNumber \<and>
   guessType (JSOther :: 'n js_value) = TString \<and>
   guessFilterType TDate = FDate \<and> guessFilterType TNumber = FNumeric \<and>
   guessFilterType TBoolean = FBoolean \<and>
   (t \<noteq> TDate \<and> t \<noteq> TNumber \<and> t \<noteq> TBoolean \<longrightarrow> guessFilterType t = FText) \<and>
   ctype (deriveColumn flt (item :: 'n data_item) key) = Some (guessType (getProperty item key)) \<and>
   filterType (deriveColumn flt item key)
     = Some (guessFilterType (guessType (getProperty item key)))"
proof -
  have "guessFilterType t = FText" if "t \<noteq> TDate" "t \<noteq> TNumber" "t \<noteq> TBoolean"
    using that by (cases t) simp_all
  then show ?thesis
    by (simp add: guessType_def typeofBoolean_def instanceofDate_def typeofNumber_def
        isoDateString_def isoDatePattern_spec deriveColumn_def)
qed

theorem guessType_decision_table_witness:
  "spec_datePrefix ''2024-01-15T10:30:00Z'' \<and>
   guessType (JSString ''2024-01-15T10:30:00Z'' :: int js_value) = TDate \<and>
   \<not> spec_datePrefix ''Jane'' \<and> guessType (JSString ''Jane'' :: int js_value) = TString \<and>
   TString \<noteq> TDate \<and> TString \<noteq> TNumber \<and> TString \<noteq> TBoolean \<and>
   guessFilterType TString = FText"
proof -
  have d: "spec_datePrefix ''2024-01-15T10:30:00Z''"
    by code_simp
  have j: "\<not> spec_datePrefix ''Jane''"
    by code_simp
  from guessType_decision_table [where s = "''2024-01-15T10:30:00Z''" and 'n = int] d
  have a: "guessType (JSString ''2024-01-15T10:30:00Z'' :: int js_value) = TDate"
    by simp
  from guessType_decision_table [where s = "''Jane''" and t = TString and 'n = int] j
  have b: "guessType (JSString ''Jane'' :: int js_value) = TString \<and> guessFilterType TString = FText"
    by simp
  from d j a b show ?thesis by simp
qed

text \<open>
  C8, as the code has it. Column derivation returns no columns when the data is not
  set, when the data array is empty and when the first item has no properties, and one
  column per key when every property of the first item can be read. It throws when the
  data array starts with \<open>null\<close> or \<open>undefined\<close> (a \<open>TypeError\<close> from \<open>Object.keys\<close>) and
  when the getter of a property of the first item throws. The column selection gives no
  columns for an empty master list, and a \<open>minWidth\<close> that does not parse is read as 100.
\<close>

theorem operations_degrade_gracefully:
  "deriveColumnsFromData flt (None :: 'n data_item list option) = Inr [] \<and>
   deriveColumnsFromData flt (Some ([] :: 'n data_item list)) = Inr [] \<and>
   deriveColumnsFromData flt (Some (ItemObject [] # (others :: 'n data_item list))) = Inr [] \<and>
   (ThrowingAccessor \<notin> snd ` set props \<longrightarrow>
      deriveColumnsFromData flt (Some (ItemObject props # (rest :: 'n data_item list)))
        = Inr (map (deriveColumn flt (ItemObject props)) (map fst props))) \<and>
   (distinct (map fst props) \<and> ThrowingAccessor \<in> snd ` set props \<longrightarrow>
      deriveColumnsFromData flt (Some (ItemObject props # rest)) = Inl AccessorError) \<and>
   deriveColumnsFromData flt (Some (ItemNull # rest)) = Inl TypeError \<and>
   deriveColumnsFromData flt (Some (ItemUndefined # rest)) = Inl TypeError \<and>
   updateResponsiveColumns [] w = [] \<and>
   (parseInt10 s = None \<longrightarrow> parseMinWidth s = 100)"
proof -
  let ?item = "ItemObject props"
  have ok: "deriveColumnsFromData flt (Some (?item # rest))
      = Inr (map (deriveColumn flt ?item) (map fst props))"
    if "ThrowingAccessor \<notin> snd ` set props"
  proof -
    from that have "\<forall>k\<in>set (map fst props). \<exists>v. readProperty ?item k = Inr v"
      by (blast dest: readProperty_data)
    then have "deriveColumns flt ?item (map fst props)
        = Inr (map (deriveColumn flt ?item) (map fst props))"
      by (rule deriveColumns_returns)
    then show ?thesis
      by (simp add: deriveColumnsFromData_def objectKeys_def)
  qed
  have bad: "deriveColumnsFromData flt (Some (?item # rest)) = Inl AccessorError"
    if "distinct (map fst props)" "ThrowingAccessor \<in> snd ` set props"
  proof -
    from that(2) obtain k where k: "(k, ThrowingAccessor) \<in> set props"
      by force
    with that(1) have "map_of props k = Some ThrowingAccessor"
      by (simp add: map_of_is_SomeI)
    then have "readProperty ?item k = Inl AccessorError"
      by (simp add: readProperty_def)
    moreover from k have "k \<in> set (map fst props)"
      by force
    ultimately obtain e where e: "deriveColumns flt ?item (map fst props) = Inl e"
      using deriveColumns_throws by blast
    then have "e = AccessorError"
      by (rule deriveColumns_error_of_object)
    with e show ?thesis
      by (simp add: deriveColumnsFromData_def objectKeys_def)
  qed
  from ok bad show ?thesis
    by (simp add: deriveColumnsFromData_def objectKeys_def updateResponsiveColumns_def
        parseMinWidth_def)
qed

theorem operations_degrade_gracefully_witness:
  "ThrowingAccessor \<notin> snd ` set [(''id'', DataProperty (JSNumber (1 :: int)))] \<and>
   deriveColumnsFromData (Some False) (Some [ItemObject [(''id'', DataProperty (JSNumber (1 :: int)))]])
     = Inr [\<lparr>field = ''id'', header = ''Id'', ctype = Some TNumber, filterable = Some False,
             filterType = Some FNumeric, mustShow = None, minWidth = Some ''100px''\<rparr>] \<and>
   distinct (map fst [(''id'', DataProperty (JSNumber (1 :: int))), (''total'', ThrowingAccessor)]) \<and>
   ThrowingAccessor \<in> snd ` set [(''id'', DataProperty (JSNumber (1 :: int))), (''total'', ThrowingAccessor)] \<and>
   deriveColumnsFromData (Some False)
     (Some [ItemObject [(''id'', DataProperty (JSNumber (1 :: int))), (''total'', ThrowingAccessor)]])
     = Inl AccessorError \<and>
   parseInt10 ''abc'' = None \<and> parseMinWidth ''abc'' = 100"
proof -
  let ?good = "[(''id'', DataProperty (JSNumber (1 :: int)))]"
  let ?bad = "[(''id'', DataProperty (JSNumber (1 :: int))), (''total'', ThrowingAccessor)]"
  have p: "parseInt10 ''abc'' = None"
    by code_simp
  have g: "ThrowingAccessor \<notin> snd ` set ?good"
    by simp
  have d: "distinct (map fst ?bad)"
    by simp
  have t: "ThrowingAccessor \<in> snd ` set ?bad"
    by simp
  have col: "map (deriveColumn (Some False) (ItemObject ?good)) (map fst ?good)
     = [\<lparr>field = ''id'', header = ''Id'', ctype = Some TNumber, filterable = Some False,
             filterType = Some FNumeric, mustShow = None, minWidth = Some ''100px''\<rparr>]"
    by code_simp
  note a = operations_degrade_gracefully
     [where props = ?good and flt = "Some False" and rest = "[]" and s = "''abc''"]
  note b = operations_degrade_gracefully
     [where props = ?bad and flt = "Some False" and rest = "[]"]
  from a g have "deriveColumnsFromData (Some False) (Some [ItemObject ?good])
      = Inr (map (deriveColumn (Some False) (ItemObject ?good)) (map fst ?good))"
    by blast
  with col have v: "deriveColumnsFromData (Some False) (Some [ItemObject ?good])
     = Inr [\<lparr>field = ''id'', header = ''Id'', ctype = Some TNumber, filterable = Some False,
             filterType = Some FNumeric, mustShow = None, minWidth = Some ''100px''\<rparr>]"
    by simp
  from b d t have e: "deriveColumnsFromData (Some False) (Some [ItemObject ?bad]) = Inl AccessorError"
    by blast
  from a p have m: "parseMinWidth ''abc'' = 100"
    by blast
  from g v d t e p m show ?thesis
    by blast
qed

text \<open>
  C8 as stated fails on a data array that starts with \<open>null\<close> or \<open>undefined\<close>: the array
  is not empty, so \<open>Object.keys\<close> is called on its first item and throws.
\<close>

theorem deriveColumnsFromData_null_item_counterexample:
  "deriveColumnsFromData (Some False) (Some [ItemNull :: int data_item]) = Inl TypeError \<and>
   deriveColumnsFromData (Some False) (Some [ItemUndefined :: int data_item]) = Inl TypeError"
  by code_simp

end
